theory Spec2Isabelle
  imports Complex_Main
begin

section \<open>The correction pipeline of backend/main.py\<close>

text \<open>
  A shallow embedding of the spell-check backend: the chunker \<open>chunk_text\<close>, the response
  extractor \<open>_extract_json_list\<close>, the occurrence scan and the aggregation loop of
  \<open>spellcheck\<close>, and the result cache shared by \<open>spellcheck\<close> and \<open>correct\<close>.

  Conventions. A Python \<open>str\<close> is a \<open>string\<close>, one \<open>char\<close> per code point, so that
  the texts covered are those of code points 0 to 255; on these the character classes
  (\<open>\w\<close>, case folding, white space) are the Unicode ones Python uses. Python exceptions are values of \<open>py_error\<close>, a function that may raise
  returns \<open>py_error + 'a\<close>. The three library calls whose results the program only passes
  on are parameters: the SHA-256 hex digest, \<open>json.loads\<close>, and the reply of the model
  service that \<open>_ollama_generate\<close> assembles. The clock is read by the caller and passed
  in as a rational number of seconds.
\<close>

section \<open>Definitions\<close>

subsection \<open>Characters\<close>

definition sp :: char where
  "sp = CHR '' ''"

text \<open>
  \<open>\w\<close> of the \<open>re\<close> module on a \<open>str\<close> pattern: the alphanumeric code points and the
  underscore. Up to 255 these are the digits (48 to 57), the ASCII letters (65 to 90 and
  97 to 122), the underscore (95), the ordinal indicators, superscript digits, micro
  sign and fractions (170, 178, 179, 181, 185, 186, 188 to 190) and the accented letters
  (192 to 255 without the multiplication and division signs 215 and 247).
\<close>

definition is_word_char :: "char \<Rightarrow> bool" where
  "is_word_char c \<longleftrightarrow>
     (let n = (of_char c :: nat)
      in (48 \<le> n \<and> n \<le> 57) \<or> (65 \<le> n \<and> n \<le> 90) \<or> n = 95 \<or> (97 \<le> n \<and> n \<le> 122) \<or>
         n = 170 \<or> n = 178 \<or> n = 179 \<or> n = 181 \<or> n = 185 \<or> n = 186 \<or>
         (188 \<le> n \<and> n \<le> 190) \<or> (192 \<le> n \<and> n \<le> 214) \<or> (216 \<le> n \<and> n \<le> 246) \<or>
         (248 \<le> n \<and> n \<le> 255))"

text \<open>
  The lowercase of a code point: the capitals up to 255 are the ASCII ones (65 to 90) and
  the accented ones (192 to 222 without 215), each 32 below its lowercase letter. Two
  code points up to 255 match under \<open>re.IGNORECASE\<close> exactly when their lowercases are
  equal.
\<close>

definition lower_char :: "char \<Rightarrow> char" where
  "lower_char c =
     (let n = (of_char c :: nat)
      in if (65 \<le> n \<and> n \<le> 90) \<or> (192 \<le> n \<and> n \<le> 214) \<or> (216 \<le> n \<and> n \<le> 222)
         then char_of (n + 32) else c)"

text \<open>\<open>str.lower\<close>.\<close>

definition lower :: "string \<Rightarrow> string" where
  "lower s = map lower_char s"

subsection \<open>The chunker\<close>

text \<open>\<open>s.split(" ")\<close>: the pieces between single spaces, empty pieces included.\<close>

fun split_sp :: "string \<Rightarrow> string list" where
  "split_sp [] = [[]]"
| "split_sp (c # cs) =
     (if c = sp then [] # split_sp cs
      else (case split_sp cs of
              [] \<Rightarrow> [[c]]
            | w # ws \<Rightarrow> (c # w) # ws))"

text \<open>
  The packing loop of \<open>chunk_text\<close> over the remaining words, with the list \<open>parts\<close> and
  the string \<open>current_text\<close> as its state.
\<close>

fun pack :: "int \<Rightarrow> string list \<Rightarrow> string list \<Rightarrow> string \<Rightarrow> string list \<times> string" where
  "pack max_chars [] parts current_text = (parts, current_text)"
| "pack max_chars (word # rest) parts current_text =
     (let (parts', current_text') =
            (if int (length current_text) + int (length word) + 1 > max_chars
             then (parts @ [current_text], [sp])
             else (parts, current_text))
      in pack max_chars rest parts' (current_text' @ word @ [sp]))"

definition chunk_text :: "string \<Rightarrow> int \<Rightarrow> string list" where
  "chunk_text s max_chars =
     (if int (length s) \<le> max_chars then [s]
      else (case pack max_chars (split_sp s) [] [] of
              (parts, current_text) \<Rightarrow>
                if current_text \<noteq> [] then parts @ [current_text] else parts))"




subsection \<open>The response extractor\<close>

text \<open>\<open>str.find\<close> and \<open>str.rfind\<close> for one character: the index, or \<open>-1\<close>.\<close>

fun find_idx :: "char \<Rightarrow> string \<Rightarrow> nat \<Rightarrow> int" where
  "find_idx c [] i = -1"
| "find_idx c (x # xs) i = (if x = c then int i else find_idx c xs (Suc i))"

definition py_find :: "string \<Rightarrow> char \<Rightarrow> int" where
  "py_find s c = find_idx c s 0"

fun rfind_idx :: "char \<Rightarrow> string \<Rightarrow> nat \<Rightarrow> int" where
  "rfind_idx c [] i = -1"
| "rfind_idx c (x # xs) i =
     (let r = rfind_idx c xs (Suc i)
      in if r \<noteq> -1 then r else if x = c then int i else -1)"

definition py_rfind :: "string \<Rightarrow> char \<Rightarrow> int" where
  "py_rfind s c = rfind_idx c s 0"

text \<open>\<open>s[a:b]\<close> for \<open>0 \<le> a \<le> b\<close>.\<close>

definition py_slice :: "string \<Rightarrow> int \<Rightarrow> int \<Rightarrow> string" where
  "py_slice s a b = take (nat (b - a)) (drop (nat a) s)"

text \<open>
  A parsed JSON value. Numbers are the finite numbers; Python compares \<open>int\<close>,
  \<open>float\<close> and \<open>bool\<close> by value. An object is the list of its members as
  parsed; a later member with the same key overrides an earlier one.
\<close>

datatype json = JNull | JBool bool | JNum rat | JStr string | JArr "json list"
  | JObj "(string \<times> json) list"

text \<open>
  \<open>_extract_json_list\<close>. The parameter \<open>loads\<close> is \<open>json.loads\<close> on the snippet,
  which starts with an opening bracket, so that a successful parse is a list; \<open>None\<close>
  stands for any exception, which the \<open>except Exception\<close> clause catches.
\<close>

definition extract_json_list :: "(string \<Rightarrow> json list option) \<Rightarrow> string \<Rightarrow> json list" where
  "extract_json_list loads raw =
     (let start = py_find raw (CHR ''[''); end = py_rfind raw (CHR '']'')
      in if start = -1 \<or> end = -1 \<or> end \<le> start then []
         else (case loads (py_slice raw start (end + 1)) of
                 None \<Rightarrow> []
               | Some v \<Rightarrow> v))"

subsection \<open>The occurrence scan\<close>

text \<open>
  The pattern is \<open>\b\<close>, the escaped word, \<open>\b\<close>, with \<open>re.IGNORECASE\<close>: the word
  matches literally, character by character up to case, with a word boundary at both
  ends. \<open>re.finditer\<close> scans from left to right and resumes at the end of each match
  (one position further after an empty match).
\<close>

definition word_boundary :: "string \<Rightarrow> nat \<Rightarrow> bool" where
  "word_boundary ch i \<longleftrightarrow>
     (0 < i \<and> i \<le> length ch \<and> is_word_char (ch ! (i - 1))) \<noteq>
     (i < length ch \<and> is_word_char (ch ! i))"

definition matches_at :: "string \<Rightarrow> string \<Rightarrow> nat \<Rightarrow> bool" where
  "matches_at w ch i \<longleftrightarrow>
     i + length w \<le> length ch \<and> word_boundary ch i \<and>
     lower (take (length w) (drop i ch)) = lower w \<and>
     word_boundary ch (i + length w)"

function finditer_from :: "string \<Rightarrow> string \<Rightarrow> nat \<Rightarrow> (nat \<times> nat) list" where
  "finditer_from w ch pos =
     (if pos > length ch then []
      else if matches_at w ch pos
           then (pos, pos + length w) # finditer_from w ch (pos + max 1 (length w))
           else finditer_from w ch (Suc pos))"
  by pat_completeness auto
termination
  by (relation "measure (\<lambda>(w, ch, pos). Suc (length ch) - pos)") auto

declare finditer_from.simps [simp del]

text \<open>
  Match ranges in increasing order that do not overlap: each starts after the start and
  not before the end of the one before it.
\<close>

fun separated :: "(nat \<times> nat) list \<Rightarrow> bool" where
  "separated [] = True"
| "separated [p] = True"
| "separated (p # q # ps) = (snd p \<le> fst q \<and> fst p < fst q \<and> separated (q # ps))"

definition locate :: "string \<Rightarrow> string \<Rightarrow> nat \<Rightarrow> (nat \<times> nat) list" where
  "locate ch w offset = map (\<lambda>(s, e). (offset + s, offset + e)) (finditer_from w ch 0)"

subsection \<open>The aggregation loop\<close>

datatype py_error = AttributeError | TypeError | UpstreamError

record entry =
  word :: string
  suggestions :: json
  positions :: "(nat \<times> nat) list"

definition dict_get :: "(string \<times> json) list \<Rightarrow> string \<Rightarrow> json" where
  "dict_get kvs k = (case map_of (rev kvs) k of None \<Rightarrow> JNull | Some v \<Rightarrow> v)"

definition dict_keys :: "(string \<times> json) list \<Rightarrow> string list" where
  "dict_keys kvs = rev (remdups (rev (map fst kvs)))"

fun dict_set :: "string \<Rightarrow> entry \<Rightarrow> (string \<times> entry) list \<Rightarrow> (string \<times> entry) list" where
  "dict_set k v [] = [(k, v)]"
| "dict_set k v ((k', v') # rest) =
     (if k' = k then (k, v) # rest else (k', v') # dict_set k v rest)"

fun py_iter :: "json \<Rightarrow> py_error + json list" where
  "py_iter (JStr cs) = Inr (map (\<lambda>c. JStr [c]) cs)"
| "py_iter (JArr xs) = Inr xs"
| "py_iter (JObj kvs) = Inr (map JStr (dict_keys kvs))"
| "py_iter _ = Inl TypeError"

fun hashable :: "json \<Rightarrow> bool" where
  "hashable (JArr xs) = False"
| "hashable (JObj kvs) = False"
| "hashable _ = True"

fun py_num :: "json \<Rightarrow> rat option" where
  "py_num (JBool b) = Some (if b then 1 else 0)"
| "py_num (JNum r) = Some r"
| "py_num _ = None"

definition py_eq :: "json \<Rightarrow> json \<Rightarrow> bool" where
  "py_eq a b =
     (case (py_num a, py_num b) of
        (Some x, Some y) \<Rightarrow> x = y
      | (None, None) \<Rightarrow> a = b
      | _ \<Rightarrow> False)"

definition py_set :: "json \<Rightarrow> py_error + json list" where
  "py_set v =
     (case py_iter v of
        Inl e \<Rightarrow> Inl e
      | Inr xs \<Rightarrow> if list_all hashable xs then Inr xs else Inl TypeError)"

fun union_loop :: "json \<Rightarrow> json list \<Rightarrow> json list \<Rightarrow> py_error + json" where
  "union_loop stored seen [] = Inr stored"
| "union_loop stored seen (s # rest) =
     (if \<not> hashable s then Inl TypeError
      else if list_ex (py_eq s) seen then union_loop stored seen rest
      else (case stored of
              JArr xs \<Rightarrow> union_loop (JArr (xs @ [s])) (seen @ [s]) rest
            | _ \<Rightarrow> Inl AttributeError))"

definition ingest ::
  "nat \<Rightarrow> string \<Rightarrow> (string \<times> entry) list \<Rightarrow> json \<Rightarrow> py_error + (string \<times> entry) list" where
  "ingest offset ch corrections_global item =
     (case item of
        JObj kvs \<Rightarrow>
          (let w = dict_get kvs ''misspelled_word'';
               sugg = dict_get kvs ''suggestion''
           in case w of
                JStr ws \<Rightarrow>
                  (let positions = locate ch ws offset;
                       key = lower ws
                   in case map_of corrections_global key of
                        None \<Rightarrow>
                          Inr (dict_set key
                                 \<lparr>word = ws, suggestions = sugg, positions = positions\<rparr>
                                 corrections_global)
                      | Some e \<Rightarrow>
                          (case py_set (suggestions e) of
                             Inl err \<Rightarrow> Inl err
                           | Inr seen \<Rightarrow>
                               (case py_iter sugg of
                                  Inl err \<Rightarrow> Inl err
                                | Inr ss \<Rightarrow>
                                    (case union_loop (suggestions e) seen ss of
                                       Inl err \<Rightarrow> Inl err
                                     | Inr stored \<Rightarrow>
                                         Inr (dict_set key
                                                (e\<lparr>suggestions := stored,
                                                   positions := entry.positions e @ positions\<rparr>)
                                                corrections_global)))))
              | _ \<Rightarrow> Inl TypeError)
      | _ \<Rightarrow> Inl AttributeError)"

fun ingest_all ::
  "nat \<Rightarrow> string \<Rightarrow> (string \<times> entry) list \<Rightarrow> json list \<Rightarrow> py_error + (string \<times> entry) list" where
  "ingest_all offset ch corrections_global [] = Inr corrections_global"
| "ingest_all offset ch corrections_global (item # arr) =
     (case ingest offset ch corrections_global item of
        Inl err \<Rightarrow> Inl err
      | Inr cg \<Rightarrow> ingest_all offset ch cg arr)"

fun chunk_loop ::
  "(string \<Rightarrow> json list option) \<Rightarrow> (string \<Rightarrow> py_error + string) \<Rightarrow> nat \<Rightarrow>
   (string \<times> entry) list \<Rightarrow> string list \<Rightarrow> py_error + (string \<times> entry) list" where
  "chunk_loop loads generate offset corrections_global [] = Inr corrections_global"
| "chunk_loop loads generate offset corrections_global (ch # chunks) =
     (case generate ch of
        Inl err \<Rightarrow> Inl err
      | Inr raw \<Rightarrow>
          (case ingest_all offset ch corrections_global (extract_json_list loads raw) of
             Inl err \<Rightarrow> Inl err
           | Inr cg \<Rightarrow> chunk_loop loads generate (offset + length ch) cg chunks))"

text \<open>
  The order-preserving union the aggregator is specified to compute: the first
  occurrence of every value, in order.
\<close>

fun dedup_first :: "'a list \<Rightarrow> 'a list" where
  "dedup_first [] = []"
| "dedup_first (x # xs) = x # dedup_first (filter (\<lambda>y. y \<noteq> x) xs)"

subsection \<open>The result cache and the endpoints\<close>

datatype cval = Corrections "entry list" | Corrected string

datatype response = CorrectionsResponse cval | TextResponse cval

type_synonym cache = "string \<Rightarrow> (rat \<times> cval) option"

record spellcheck_request =
  req_text :: string
  req_model :: "string option"
  max_chunk_chars :: int

record correct_request =
  creq_text :: string
  creq_model :: "string option"

definition MODEL_DEFAULT :: string where
  "MODEL_DEFAULT = ''llama3''"

definition CACHE_TTL :: rat where
  "CACHE_TTL = 60"

text \<open>\<open>req.model or MODEL_DEFAULT\<close>: \<open>None\<close> and the empty string are falsy.\<close>

definition or_default :: "string option \<Rightarrow> string" where
  "or_default m = (case m of None \<Rightarrow> MODEL_DEFAULT | Some s \<Rightarrow> if s = [] then MODEL_DEFAULT else s)"

text \<open>
  \<open>_hash_key\<close>; the parameter \<open>sha256_hex\<close> is the hex digest of the SHA-256 of the
  UTF-8 encoding of its argument.
\<close>

definition hash_key :: "(string \<Rightarrow> string) \<Rightarrow> string \<Rightarrow> string \<Rightarrow> string" where
  "hash_key sha256_hex model txt = sha256_hex (model @ ''||'' @ txt)"

text \<open>
  \<open>_cache_get\<close> and \<open>_cache_set\<close>, with the reading of the clock as an argument. The
  age of an entry is the exact difference of two readings; the rounding of the floating
  point subtraction is not modelled.
\<close>

definition cache_get ::
  "(string \<Rightarrow> string) \<Rightarrow> rat \<Rightarrow> cache \<Rightarrow> string \<Rightarrow> string \<Rightarrow> cval option \<times> cache" where
  "cache_get sha256_hex now CACHE model txt =
     (let key = hash_key sha256_hex model txt
      in case CACHE key of
           None \<Rightarrow> (None, CACHE)
         | Some (ts, val) \<Rightarrow>
             if now - ts > CACHE_TTL then (None, CACHE(key := None))
             else (Some val, CACHE))"

definition cache_set ::
  "(string \<Rightarrow> string) \<Rightarrow> rat \<Rightarrow> cache \<Rightarrow> string \<Rightarrow> string \<Rightarrow> cval \<Rightarrow> cache" where
  "cache_set sha256_hex now CACHE model txt val =
     CACHE(hash_key sha256_hex model txt \<mapsto> (now, val))"

text \<open>
  The endpoint \<open>spellcheck\<close>. \<open>generate model ch\<close> is what \<open>_ollama_generate\<close> returns
  for the prompt built from the chunk \<open>ch\<close>, or the exception it raises; \<open>now_get\<close> and
  \<open>now_set\<close> are the readings of the clock in \<open>_cache_get\<close> and \<open>_cache_set\<close>.
\<close>

definition spellcheck ::
  "(string \<Rightarrow> string) \<Rightarrow> (string \<Rightarrow> json list option) \<Rightarrow>
   (string \<Rightarrow> string \<Rightarrow> py_error + string) \<Rightarrow> rat \<Rightarrow> rat \<Rightarrow> cache \<Rightarrow>
   spellcheck_request \<Rightarrow> (py_error + response) \<times> cache" where
  "spellcheck sha256_hex loads generate now_get now_set CACHE req =
     (let model = or_default (req_model req);
          txt = req_text req
      in case cache_get sha256_hex now_get CACHE model txt of
           (Some cached, CACHE') \<Rightarrow> (Inr (CorrectionsResponse cached), CACHE')
         | (None, CACHE') \<Rightarrow>
             (case chunk_loop loads (generate model) 0 []
                     (chunk_text txt (max_chunk_chars req)) of
                Inl err \<Rightarrow> (Inl err, CACHE')
              | Inr corrections_global \<Rightarrow>
                  (let result = map snd corrections_global
                   in (Inr (CorrectionsResponse (Corrections result)),
                       cache_set sha256_hex now_set CACHE' model txt (Corrections result)))))"

text \<open>
  \<open>str.strip\<close>: the white space up to 255 is 9 to 13, 28 to 32, the next-line control
  133 and the no-break space 160.
\<close>

definition is_space :: "char \<Rightarrow> bool" where
  "is_space c \<longleftrightarrow>
     (let n = (of_char c :: nat)
      in (9 \<le> n \<and> n \<le> 13) \<or> (28 \<le> n \<and> n \<le> 32) \<or> n = 133 \<or> n = 160)"

definition strip :: "string \<Rightarrow> string" where
  "strip s = rev (dropWhile is_space (rev (dropWhile is_space s)))"

text \<open>
  The endpoint \<open>correct\<close>; \<open>rewrite model txt\<close> is what \<open>_ollama_generate\<close> returns for
  the rewriting prompt built from \<open>txt\<close>.
\<close>

definition correct ::
  "(string \<Rightarrow> string) \<Rightarrow> (string \<Rightarrow> string \<Rightarrow> py_error + string) \<Rightarrow> rat \<Rightarrow> rat \<Rightarrow> cache \<Rightarrow>
   correct_request \<Rightarrow> (py_error + response) \<times> cache" where
  "correct sha256_hex rewrite now_get now_set CACHE req =
     (let model = or_default (creq_model req);
          txt = creq_text req
      in case cache_get sha256_hex now_get CACHE model (''AUTO|'' @ txt) of
           (Some cached, CACHE') \<Rightarrow> (Inr (TextResponse cached), CACHE')
         | (None, CACHE') \<Rightarrow>
             (case rewrite model txt of
                Inl err \<Rightarrow> (Inl err, CACHE')
              | Inr raw \<Rightarrow>
                  (let corrected = strip raw
                   in (Inr (TextResponse (Corrected corrected)),
                       cache_set sha256_hex now_set CACHE' model (''AUTO|'' @ txt)
                         (Corrected corrected)))))"

subsection \<open>An example environment\<close>

text \<open>
  For the evaluations below: \<open>json.loads\<close> on the few snippets that occur, and model
  services with fixed replies.
\<close>

definition ex_loads :: "string \<Rightarrow> json list option" where
  \<open>ex_loads s =
     (if s = ''[]'' then Some []
      else if s = ''[1]'' then Some [JNum 1]
      else if s = ''[1,2,3]'' then Some [JNum 1, JNum 2, JNum 3]
      else if s = ''[{"suggestion": "x"}]'' then Some [JObj [(''suggestion'', JStr ''x'')]]
      else if s = ''[{"misspelled_word": "bb", "suggestion": "b"}]''
        then Some [JObj [(''misspelled_word'', JStr ''bb''), (''suggestion'', JStr ''b'')]]
      else if s = ''[{"misspelled_word":"has","suggestion":"have"}]''
        then Some [JObj [(''misspelled_word'', JStr ''has''), (''suggestion'', JStr ''have'')]]
      else if s = ''[{"misspelled_word": "Teh", "suggestion": "The"}]''
        then Some [JObj [(''misspelled_word'', JStr ''Teh''), (''suggestion'', JStr ''The'')]]
      else if s = ''[{"misspelled_word": "teh", "suggestion": "the"}]''
        then Some [JObj [(''misspelled_word'', JStr ''teh''), (''suggestion'', JStr ''the'')]]
      else if s = ''[{"misspelled_word": "Teh", "suggestion": ["The"]}]''
        then Some [JObj [(''misspelled_word'', JStr ''Teh''),
                         (''suggestion'', JArr [JStr ''The''])]]
      else if s = ''[{"misspelled_word": "teh", "suggestion": ["the", "The"]}]''
        then Some [JObj [(''misspelled_word'', JStr ''teh''),
                         (''suggestion'', JArr [JStr ''the'', JStr ''The''])]]
      else None)\<close>

definition ex_reply :: "string \<Rightarrow> string \<Rightarrow> string \<Rightarrow> py_error + string" where
  "ex_reply raw model ch = Inr raw"

definition ex_reply_teh :: "string \<Rightarrow> string \<Rightarrow> py_error + string" where
  \<open>ex_reply_teh model ch =
     (if ch = ''Teh cat '' then Inr ''[{"misspelled_word": "Teh", "suggestion": ["The"]}]''
      else Inr ''Here: [{"misspelled_word": "teh", "suggestion": ["the", "The"]}]'')\<close>

definition ex_reply_teh_scalar :: "string \<Rightarrow> string \<Rightarrow> py_error + string" where
  \<open>ex_reply_teh_scalar model ch =
     (if ch = ''Teh cat '' then Inr ''[{"misspelled_word": "Teh", "suggestion": "The"}]''
      else Inr ''[{"misspelled_word": "teh", "suggestion": "the"}]'')\<close>

definition ex_reply_teh_mixed :: "string \<Rightarrow> string \<Rightarrow> py_error + string" where
  \<open>ex_reply_teh_mixed model ch =
     (if ch = ''Teh cat '' then Inr ''[{"misspelled_word": "Teh", "suggestion": ["The"]}]''
      else Inr ''[{"misspelled_word": "teh", "suggestion": "the"}]'')\<close>

definition ex_reply_bb :: "string \<Rightarrow> string \<Rightarrow> py_error + string" where
  \<open>ex_reply_bb model ch =
     (if ch = '' bb '' then Inr ''[{"misspelled_word": "bb", "suggestion": "b"}]''
      else Inr ''[]'')\<close>

section \<open>Lemmas\<close>

subsection \<open>Facts about splitting\<close>








subsection \<open>Invariants of the packing loop\<close>





subsection \<open>Facts about the extractor\<close>

lemma find_idx_none: "find_idx c s i = -1 \<longleftrightarrow> c \<notin> set s"
proof (induction s arbitrary: i)
  case Nil show ?case by simp
next
  case (Cons x xs) then show ?case by auto
qed

lemma find_idx_first: "c \<notin> set pre \<Longrightarrow> find_idx c (pre @ c # rest) i = int (i + length pre)"
  by (induction pre arbitrary: i) auto

lemma rfind_idx_none: "rfind_idx c s i = -1 \<longleftrightarrow> c \<notin> set s"
  by (induction s arbitrary: i) (auto simp: Let_def)

lemma rfind_idx_last: "c \<notin> set post \<Longrightarrow> rfind_idx c (pre @ c # post) i = int (i + length pre)"
proof (induction pre arbitrary: i)
  case Nil
  then show ?case using rfind_idx_none [of c post "Suc i"] by (simp add: Let_def)
next
  case (Cons x pre)
  then show ?case by (simp add: Let_def)
qed

lemma extract_none:
  "CHR ''['' \<notin> set raw \<or> CHR '']'' \<notin> set raw \<Longrightarrow> extract_json_list loads raw = []"
  by (auto simp: extract_json_list_def py_find_def py_rfind_def find_idx_none rfind_idx_none Let_def)

lemma extract_reversed:
  assumes "raw = a @ CHR '']'' # b" "CHR ''['' \<notin> set a" "CHR '']'' \<notin> set b"
  shows "extract_json_list loads raw = []"
proof (cases "CHR ''['' \<in> set b")
  case False
  with assms show ?thesis using extract_none [of raw loads] by auto
next
  case True
  then obtain b1 b2 where b: "b = b1 @ CHR ''['' # b2" "CHR ''['' \<notin> set b1"
    by (meson split_list_first)
  have "py_rfind raw (CHR '']'') = int (length a)"
    using assms rfind_idx_last [of "CHR '']''" b a 0] by (simp add: py_rfind_def)
  moreover have "py_find raw (CHR ''['') = int (length a + 1 + length b1)"
    using assms b find_idx_first [of "CHR ''[''" "a @ CHR '']'' # b1" b2 0]
    by (simp add: py_find_def)
  ultimately show ?thesis by (simp add: extract_json_list_def Let_def)
qed

lemma extract_pair:
  assumes "raw = pre @ CHR ''['' # mid @ CHR '']'' # post"
    "CHR ''['' \<notin> set pre" "CHR '']'' \<notin> set post"
  shows "extract_json_list loads raw =
           (case loads (CHR ''['' # mid @ [CHR '']'']) of None \<Rightarrow> [] | Some v \<Rightarrow> v)"
proof -
  have f: "py_find raw (CHR ''['') = int (length pre)"
    using assms find_idx_first [of "CHR ''[''" pre "mid @ CHR '']'' # post" 0]
    by (simp add: py_find_def)
  have r: "py_rfind raw (CHR '']'') = int (length pre + 1 + length mid)"
    using assms rfind_idx_last [of "CHR '']''" post "pre @ CHR ''['' # mid" 0]
    by (simp add: py_rfind_def)
  have "py_slice raw (int (length pre)) (int (length pre + 1 + length mid) + 1)
          = CHR ''['' # mid @ [CHR '']'']"
  proof -
    have "nat (2 + int (length mid)) = Suc (Suc (length mid))" by simp
    with assms(1) show ?thesis by (simp add: py_slice_def)
  qed
  with f r show ?thesis by (simp add: extract_json_list_def Let_def)
qed

subsection \<open>Facts about the scan\<close>












text \<open>
  Soundness, order without overlap and maximality determine the result of the scan: a
  list with these three properties is the list the scan returns.
\<close>

lemma separated_tail: "separated (p # ps) \<Longrightarrow> separated ps"
  by (cases ps) auto

lemma separated_head_least: "separated (p # ps) \<Longrightarrow> q \<in> set ps \<Longrightarrow> fst p < fst q"
proof (induction ps arbitrary: p)
  case Nil
  then show ?case by simp
next
  case (Cons a ps)
  from Cons.prems(1) have pa: "fst p < fst a" and sa: "separated (a # ps)" by simp_all
  show ?case
  proof (cases "q = a")
    case True
    with pa show ?thesis by simp
  next
    case False
    with Cons.prems(2) have "q \<in> set ps" by simp
    from Cons.IH [OF sa this] pa show ?thesis by simp
  qed
qed

lemma separated_head_end: "separated (p # ps) \<Longrightarrow> q \<in> set ps \<Longrightarrow> snd p \<le> fst q"
proof (cases ps)
  case Nil
  assume "q \<in> set ps" with Nil show ?thesis by simp
next
  case (Cons a as)
  assume s: "separated (p # ps)" and q: "q \<in> set ps"
  from s Cons have pa: "snd p \<le> fst a" and sa: "separated (a # as)" by simp_all
  show ?thesis
  proof (cases "q = a")
    case True with pa show ?thesis by simp
  next
    case False
    with q Cons have "q \<in> set as" by simp
    from separated_head_least [OF sa this] pa show ?thesis by simp
  qed
qed

lemma finditer_unique:
  assumes "\<forall>(s, e) \<in> set ps. e = s + length w \<and> pos \<le> s \<and> matches_at w ch s"
    and "separated ps"
    and "\<forall>i \<ge> pos. matches_at w ch i \<longrightarrow>
           (i, i + length w) \<in> set ps \<or>
           (\<exists>j. (j, j + length w) \<in> set ps \<and> j < i \<and> i < j + length w)"
  shows "ps = finditer_from w ch pos"
  using assms
proof (induction w ch pos arbitrary: ps rule: finditer_from.induct)
  case (1 w ch pos)
  note snd' = "1.prems"(1) and sep = "1.prems"(2) and mx = "1.prems"(3)
  show ?case
  proof (cases "pos > length ch")
    case True
    have "ps = []"
    proof (cases ps)
      case (Cons p ps')
      obtain s e where p: "p = (s, e)" by (cases p)
      with Cons snd' have "pos \<le> s" "matches_at w ch s" by auto
      with True show ?thesis by (simp add: matches_at_def)
    qed simp
    with True show ?thesis by (subst finditer_from.simps) simp
  next
    case False
    show ?thesis
    proof (cases "matches_at w ch pos")
      case True
      let ?q = "pos + max 1 (length w)"
      from mx True snd' have mem: "(pos, pos + length w) \<in> set ps" by fastforce
      then obtain p ps' where ps: "ps = p # ps'" by (cases ps) auto
      have hd: "p = (pos, pos + length w)"
      proof (rule ccontr)
        assume "p \<noteq> (pos, pos + length w)"
        with mem ps have "(pos, pos + length w) \<in> set ps'" by simp
        from separated_head_least [OF sep [unfolded ps] this] have "fst p < pos" by simp
        moreover from snd' ps have "pos \<le> fst p" by (cases p) auto
        ultimately show False by simp
      qed
      have a: "\<forall>(s, e) \<in> set ps'. e = s + length w \<and> ?q \<le> s \<and> matches_at w ch s"
      proof (clarify)
        fix s e assume m: "(s, e) \<in> set ps'"
        with snd' ps have b: "e = s + length w" "matches_at w ch s" by auto
        from separated_head_least [OF sep [unfolded ps] m]
          separated_head_end [OF sep [unfolded ps] m] hd
        have "pos < s" "pos + length w \<le> s" by simp_all
        then have "?q \<le> s" by (simp add: max_def split: if_splits)
        with b show "e = s + length w \<and> ?q \<le> s \<and> matches_at w ch s" by simp
      qed
      have b: "separated ps'" using sep ps separated_tail by blast
      have c: "\<forall>i \<ge> ?q. matches_at w ch i \<longrightarrow>
           (i, i + length w) \<in> set ps' \<or>
           (\<exists>j. (j, j + length w) \<in> set ps' \<and> j < i \<and> i < j + length w)"
      proof (intro allI impI)
        fix i assume i: "?q \<le> i" and m: "matches_at w ch i"
        from i have ip: "pos < i" "pos + length w \<le> i" by (simp_all add: max_def split: if_splits)
        from mx m i have "(i, i + length w) \<in> set ps \<or>
           (\<exists>j. (j, j + length w) \<in> set ps \<and> j < i \<and> i < j + length w)"
          by (simp add: max_def)
        then show "(i, i + length w) \<in> set ps' \<or>
           (\<exists>j. (j, j + length w) \<in> set ps' \<and> j < i \<and> i < j + length w)"
        proof
          assume "(i, i + length w) \<in> set ps"
          with ps hd ip show ?thesis by auto
        next
          assume "\<exists>j. (j, j + length w) \<in> set ps \<and> j < i \<and> i < j + length w"
          then obtain j where j: "(j, j + length w) \<in> set ps" "j < i" "i < j + length w"
            by blast
          with ip have "j \<noteq> pos" by auto
          with j ps hd have "(j, j + length w) \<in> set ps'" by auto
          with j show ?thesis by blast
        qed
      qed
      from "1.IH"(1) [OF False True a b c] ps hd False True show ?thesis
        by (subst finditer_from.simps) simp
    next
      case F2: False
      have a: "\<forall>(s, e) \<in> set ps. e = s + length w \<and> Suc pos \<le> s \<and> matches_at w ch s"
      proof (clarify)
        fix s e assume "(s, e) \<in> set ps"
        with snd' have b: "e = s + length w" "pos \<le> s" "matches_at w ch s" by auto
        with F2 have "s \<noteq> pos" by auto
        with b show "e = s + length w \<and> Suc pos \<le> s \<and> matches_at w ch s" by simp
      qed
      have c: "\<forall>i \<ge> Suc pos. matches_at w ch i \<longrightarrow>
           (i, i + length w) \<in> set ps \<or>
           (\<exists>j. (j, j + length w) \<in> set ps \<and> j < i \<and> i < j + length w)"
        using mx by simp
      from "1.IH"(2) [OF False F2 a sep c] False F2 show ?thesis
        by (subst finditer_from.simps) simp
    qed
  qed
qed

subsection \<open>Evaluations of the scan\<close>



subsection \<open>Facts about the aggregation loop\<close>

lemma dict_set_map_of: "map_of (dict_set k v al) = (map_of al)(k \<mapsto> v)"
  by (induction al) (auto simp: fun_eq_iff)

lemma dict_set_present: "map_of al k = Some v0 \<Longrightarrow> map fst (dict_set k v al) = map fst al"
  by (induction al) (auto split: if_splits)

lemma dict_set_absent: "map_of al k = None \<Longrightarrow> dict_set k v al = al @ [(k, v)]"
  by (induction al) (auto split: if_splits)

lemma py_eq_str: "py_eq (JStr a) (JStr b) \<longleftrightarrow> a = b"
  by (simp add: py_eq_def)

lemma list_ex_str: "list_ex (py_eq (JStr x)) (map JStr ys) \<longleftrightarrow> x \<in> set ys"
  by (induction ys) (auto simp: py_eq_str)

lemma py_set_strs: "py_set (JArr (map JStr ys)) = Inr (map JStr ys)"
  by (simp add: py_set_def list_all_iff)

lemma union_loop_strs:
  "union_loop (JArr (map JStr ys)) (map JStr ys) (map JStr xs) =
     Inr (JArr (map JStr (ys @ dedup_first (filter (\<lambda>x. x \<notin> set ys) xs))))"
proof (induction xs arbitrary: ys)
  case Nil
  show ?case by simp
next
  case (Cons x xs)
  show ?case
  proof (cases "x \<in> set ys")
    case True
    with Cons.IH [of ys] show ?thesis by (simp add: list_ex_str)
  next
    case False
    have f: "filter (\<lambda>z. z \<notin> set (ys @ [x])) xs =
             filter (\<lambda>y. y \<noteq> x) (filter (\<lambda>z. z \<notin> set ys) xs)"
      by (induction xs) auto
    from Cons.IH [of "ys @ [x]"] False show ?thesis
      by (simp add: list_ex_str f conj_commute)
  qed
qed

lemma ingest_merge_lists:
  assumes "dict_get kvs ''misspelled_word'' = JStr w"
    and "dict_get kvs ''suggestion'' = JArr (map JStr xs)"
    and "map_of cg (lower w) = Some e"
    and "suggestions e = JArr (map JStr ys)"
  shows "\<exists>cg'. ingest offset ch cg (JObj kvs) = Inr cg' \<and>
           map fst cg' = map fst cg \<and>
           map_of cg' = (map_of cg)(lower w \<mapsto>
             e\<lparr>suggestions :=
                  JArr (map JStr (ys @ dedup_first (filter (\<lambda>x. x \<notin> set ys) xs))),
                positions := positions e @ locate ch w offset\<rparr>)"
  using assms
  by (auto simp: ingest_def Let_def py_set_strs union_loop_strs dict_set_map_of
      dict_set_present)

lemma ingest_new_key:
  assumes "dict_get kvs ''misspelled_word'' = JStr w" and "map_of cg (lower w) = None"
  shows "ingest offset ch cg (JObj kvs) =
           Inr (cg @ [(lower w, \<lparr>word = w, suggestions = dict_get kvs ''suggestion'',
                                   positions = locate ch w offset\<rparr>)])"
  using assms by (simp add: ingest_def Let_def dict_set_absent)

subsection \<open>Facts about the endpoints\<close>

lemma cache_get_miss:
  "CACHE (hash_key sha model txt) = None \<Longrightarrow> cache_get sha now CACHE model txt = (None, CACHE)"
  by (simp add: cache_get_def)

lemma cache_get_fresh:
  "CACHE (hash_key sha model txt) = Some (ts, val) \<Longrightarrow> now - ts \<le> CACHE_TTL \<Longrightarrow>
     cache_get sha now CACHE model txt = (Some val, CACHE)"
  by (simp add: cache_get_def)

lemma spellcheck_miss:
  assumes "CACHE (hash_key sha (or_default (req_model req)) (req_text req)) = None"
    and "chunk_loop loads (generate (or_default (req_model req))) 0 []
           (chunk_text (req_text req) (max_chunk_chars req)) = Inr cg"
  shows "spellcheck sha loads generate now_get now_set CACHE req =
           (Inr (CorrectionsResponse (Corrections (map snd cg))),
            cache_set sha now_set CACHE (or_default (req_model req)) (req_text req)
              (Corrections (map snd cg)))"
  using assms by (simp add: spellcheck_def cache_get_miss Let_def)

lemma spellcheck_raise:
  assumes "CACHE (hash_key sha (or_default (req_model req)) (req_text req)) = None"
    and "chunk_loop loads (generate (or_default (req_model req))) 0 []
           (chunk_text (req_text req) (max_chunk_chars req)) = Inl err"
  shows "spellcheck sha loads generate now_get now_set CACHE req = (Inl err, CACHE)"
  using assms by (simp add: spellcheck_def cache_get_miss Let_def)

lemma correct_miss:
  assumes "CACHE (hash_key sha (or_default (creq_model req)) (''AUTO|'' @ creq_text req)) = None"
    and "rewrite (or_default (creq_model req)) (creq_text req) = Inr raw"
  shows "correct sha rewrite now_get now_set CACHE req =
           (Inr (TextResponse (Corrected (strip raw))),
            cache_set sha now_set CACHE (or_default (creq_model req))
              (''AUTO|'' @ creq_text req) (Corrected (strip raw)))"
  using assms by (simp add: correct_def cache_get_miss Let_def)

subsection \<open>Evaluations of the pipeline\<close>

lemma teh_chunks:
  "chunk_text ''Teh cat teh'' 8 = [''Teh cat '', '' teh ''] \<and>
   chunk_loop ex_loads (ex_reply_teh ''llama3'') 0 [] [''Teh cat '', '' teh ''] =
   Inr [(''teh'', \<lparr>word = ''Teh'', suggestions = JArr [JStr ''The'', JStr ''the''],
                   positions = [(0, 3), (9, 12)]\<rparr>)]"
  by code_simp

lemma teh_mixed_chunks:
  "chunk_text ''Teh cat teh'' 8 = [''Teh cat '', '' teh ''] \<and>
   chunk_loop ex_loads (ex_reply_teh_mixed ''llama3'') 0 [] [''Teh cat '', '' teh ''] =
   Inr [(''teh'', \<lparr>word = ''Teh'',
                   suggestions = JArr [JStr ''The'', JStr ''t'', JStr ''h'', JStr ''e''],
                   positions = [(0, 3), (9, 12)]\<rparr>)] \<and>
   chunk_loop ex_loads (ex_reply_teh_scalar ''llama3'') 0 [] [''Teh cat '', '' teh ''] =
   Inl AttributeError"
  by code_simp

lemma bb_chunks:
  "chunk_text ''aa bb'' 3 = [''aa '', '' bb ''] \<and>
   chunk_loop ex_loads (ex_reply_bb ''llama3'') 0 [] [''aa '', '' bb ''] =
   Inr [(''bb'', \<lparr>word = ''bb'', suggestions = JStr ''b'', positions = [(4, 6)]\<rparr>)]"
  by code_simp

lemma has_chunks:
  \<open>chunk_text ''I has a apple'' 1600 = [''I has a apple''] \<and>
   chunk_loop ex_loads (ex_reply ''[{"misspelled_word":"has","suggestion":"have"}]'' ''m'') 0 []
     [''I has a apple''] =
   Inr [(''has'', \<lparr>word = ''has'', suggestions = JStr ''have'', positions = [(2, 5)]\<rparr>)]\<close>
  by code_simp

lemma scalar_second:
  "ingest_all 0 ''Teh teh'' []
     [JObj [(''misspelled_word'', JStr ''Teh''), (''suggestion'', JStr ''The'')],
      JObj [(''misspelled_word'', JStr ''teh''), (''suggestion'', JStr ''the'')]] =
   Inl AttributeError"
  by code_simp

lemma malformed_chunks:
  \<open>chunk_text ''I has a apple'' 1600 = [''I has a apple''] \<and>
   chunk_loop ex_loads (ex_reply ''Sure: [1]'' ''m'') 0 [] [''I has a apple''] =
     Inl AttributeError \<and>
   chunk_loop ex_loads (ex_reply ''[{"suggestion": "x"}]'' ''m'') 0 [] [''I has a apple''] =
     Inl TypeError\<close>
  by code_simp

lemma auto_chunks:
  "chunk_loop ex_loads (ex_reply ''[]'' ''m'') 0 [] (chunk_text (''AUTO|'' @ ''helo'') 1600) = Inr []"
  by code_simp

lemma strip_hello: "strip '' hello '' = ''hello''"
  by code_simp

section \<open>Claims\<close>

subsection \<open>Claims about the chunker\<close>

text \<open>
  C4 says that the chunk texts, concatenated in order, are the original text. The code
  does not achieve it once the text is cut: every word is followed by an added space,
  also the last one, and every chunk after the first starts with one more. With a budget
  of 3 the text \<open>aa bb\<close> gives \<open>aa \<close> and \<open> bb \<close>, seven characters for five. The
  running offset of \<open>spellcheck\<close> is the length of that concatenation.
\<close>

theorem chunk_text_concat_padded:
  "chunk_text ''aa bb'' 3 = [''aa '', '' bb ''] \<and>
   concat (chunk_text ''aa bb'' 3) = ''aa  bb '' \<and>
   concat (chunk_text ''aa bb'' 3) \<noteq> ''aa bb''"
  by (simp add: chunk_text_def sp_def)




text \<open>
  C6 says that no returned chunk is empty. The code does not achieve it: it filters the
  final \<open>current_text\<close>, but when the first word alone exceeds the budget the loop
  appends the still empty \<open>current_text\<close> to \<open>parts\<close>. With a budget of 3 the text
  \<open>abcdef\<close> gives an empty first chunk.
\<close>

theorem chunk_text_empty_chunk:
  "chunk_text ''abcdef'' 3 = ['''', '' abcdef '']"
  by (simp add: chunk_text_def sp_def)

subsection \<open>Claims about the occurrence locator\<close>




subsection \<open>Claims about the response extractor\<close>

text \<open>
  C9: the extractor takes the text from the first opening bracket to the last closing
  bracket and parses it as JSON. Without an opening or a closing bracket, with the last
  closing bracket before the first opening one, or when the parse fails, the result is
  the empty list. The function is total: whatever \<open>json.loads\<close> does, a list is returned.
  On \<open>blah [1,2,3] blah\<close> the result is \<open>[1,2,3]\<close>.
\<close>

theorem extract_json_list_spec:
  "(CHR ''['' \<notin> set raw \<or> CHR '']'' \<notin> set raw \<longrightarrow> extract_json_list loads raw = []) \<and>
   (raw = a @ CHR '']'' # b \<and> CHR ''['' \<notin> set a \<and> CHR '']'' \<notin> set b \<longrightarrow>
      extract_json_list loads raw = []) \<and>
   (raw = pre @ CHR ''['' # mid @ CHR '']'' # post \<and>
    CHR ''['' \<notin> set pre \<and> CHR '']'' \<notin> set post \<longrightarrow>
      extract_json_list loads raw =
        (case loads (CHR ''['' # mid @ [CHR '']'']) of None \<Rightarrow> [] | Some v \<Rightarrow> v)) \<and>
   (loads ''[1,2,3]'' = Some [JNum 1, JNum 2, JNum 3] \<longrightarrow>
      extract_json_list loads ''blah [1,2,3] blah'' = [JNum 1, JNum 2, JNum 3])"
  using extract_none [of raw loads] extract_reversed [of raw a b loads]
    extract_pair [of raw pre mid post loads]
    extract_pair [of "''blah [1,2,3] blah''" "''blah ''" "''1,2,3''" "'' blah''" loads]
  by simp

theorem extract_json_list_spec_witness:
  "CHR ''['' \<notin> set ''no brackets'' \<and> extract_json_list ex_loads ''no brackets'' = [] \<and>
   ''a] [b'' = ''a'' @ CHR '']'' # '' [b'' \<and> CHR ''['' \<notin> set ''a'' \<and> CHR '']'' \<notin> set '' [b'' \<and>
   extract_json_list ex_loads ''a] [b'' = [] \<and>
   ''x [oops] y'' = ''x '' @ CHR ''['' # ''oops'' @ CHR '']'' # '' y'' \<and>
   ex_loads ''[oops]'' = None \<and> extract_json_list ex_loads ''x [oops] y'' = [] \<and>
   ex_loads ''[1,2,3]'' = Some [JNum 1, JNum 2, JNum 3] \<and>
   extract_json_list ex_loads ''blah [1,2,3] blah'' = [JNum 1, JNum 2, JNum 3]"
  using extract_json_list_spec [where raw = "''no brackets''" and loads = ex_loads]
    extract_json_list_spec [where raw = "''a] [b''" and a = "''a''" and b = "'' [b''"
      and loads = ex_loads]
    extract_json_list_spec [where raw = "''x [oops] y''" and pre = "''x ''"
      and mid = "''oops''" and post = "'' y''" and loads = ex_loads]
    extract_json_list_spec [where loads = ex_loads]
  by (simp add: ex_loads_def)

subsection \<open>Claims about the aggregator\<close>

text \<open>
  C7 says that on a later sighting of a key the suggestions are unioned in first-seen
  order, skipping the values already present. The code does so only when the stored and
  the new value are lists (lemma \<open>ingest_merge_lists\<close>); it never turns a scalar into a
  list. With the scalar suggestions its prompt asks for, \<open>Teh\<close> with \<open>"The"\<close> in one
  chunk and \<open>teh\<close> with \<open>"the"\<close> in the next, the second sighting calls \<open>append\<close> on the
  stored string and the request fails; after a list \<open>["The"]\<close>, the scalar \<open>"the"\<close> is
  added character by character.
\<close>

theorem spellcheck_merge_scalar:
  "fst (spellcheck sha ex_loads ex_reply_teh_scalar now_get now_set Map.empty
          \<lparr>req_text = ''Teh cat teh'', req_model = None, max_chunk_chars = 8\<rparr>) =
   Inl AttributeError \<and>
   fst (spellcheck sha ex_loads ex_reply_teh_mixed now_get now_set Map.empty
          \<lparr>req_text = ''Teh cat teh'', req_model = None, max_chunk_chars = 8\<rparr>) =
   Inr (CorrectionsResponse (Corrections
          [\<lparr>word = ''Teh'',
             suggestions = JArr [JStr ''The'', JStr ''t'', JStr ''h'', JStr ''e''],
             positions = [(0, 3), (9, 12)]\<rparr>]))"
  using teh_mixed_chunks
    spellcheck_raise [where CACHE = Map.empty and sha = sha and loads = ex_loads
      and generate = ex_reply_teh_scalar
      and req = "\<lparr>req_text = ''Teh cat teh'', req_model = None, max_chunk_chars = 8\<rparr>"]
    spellcheck_miss [where CACHE = Map.empty and sha = sha and loads = ex_loads
      and generate = ex_reply_teh_mixed
      and req = "\<lparr>req_text = ''Teh cat teh'', req_model = None, max_chunk_chars = 8\<rparr>"]
  by (simp add: or_default_def MODEL_DEFAULT_def)

subsection \<open>Claims about the whole request\<close>

text \<open>
  C1 says that every reported position is an offset range into the original text. The
  code does not achieve it once the text is cut: the running offset advances by the
  length of the chunk texts, and every chunk after the first starts with an added space.
  For the text \<open>aa bb\<close> (five characters) cut with a budget of 3, the word \<open>bb\<close> of the
  second chunk is reported at \<open>[4, 6]\<close>, beyond the end of the text, while it stands at
  \<open>[3, 5]\<close>.
\<close>

theorem spellcheck_offset_drift:
  "fst (spellcheck sha ex_loads ex_reply_bb now_get now_set Map.empty
          \<lparr>req_text = ''aa bb'', req_model = None, max_chunk_chars = 3\<rparr>) =
   Inr (CorrectionsResponse (Corrections
          [\<lparr>word = ''bb'', suggestions = JStr ''b'', positions = [(4, 6)]\<rparr>])) \<and>
   length ''aa bb'' = 5"
  using bb_chunks
    spellcheck_miss [where CACHE = Map.empty and sha = sha and loads = ex_loads
      and generate = ex_reply_bb
      and req = "\<lparr>req_text = ''aa bb'', req_model = None, max_chunk_chars = 3\<rparr>"]
  by (simp add: or_default_def MODEL_DEFAULT_def)

text \<open>
  C2 says that the suggestions of a correction are a list of strings without duplicates,
  whatever the shape of the model's value. The code does not normalise: the value is
  stored as it comes on the first sighting of a key. In the end-to-end example of the
  specification the scalar \<open>"have"\<close> gives the string \<open>"have"\<close>, not the list
  \<open>["have"]\<close>; on a second sighting the loop calls \<open>append\<close> on that string and the
  request fails.
\<close>

theorem spellcheck_scalar_suggestion:
  \<open>fst (spellcheck sha ex_loads
          (ex_reply ''[{"misspelled_word":"has","suggestion":"have"}]'')
          now_get now_set Map.empty
          \<lparr>req_text = ''I has a apple'', req_model = Some ''m'', max_chunk_chars = 1600\<rparr>) =
   Inr (CorrectionsResponse (Corrections
          [\<lparr>word = ''has'', suggestions = JStr ''have'', positions = [(2, 5)]\<rparr>])) \<and>
   ingest_all 0 ''Teh teh'' []
     [JObj [(''misspelled_word'', JStr ''Teh''), (''suggestion'', JStr ''The'')],
      JObj [(''misspelled_word'', JStr ''teh''), (''suggestion'', JStr ''the'')]] =
   Inl AttributeError\<close>
  using has_chunks scalar_second
    spellcheck_miss [where CACHE = Map.empty and sha = sha and loads = ex_loads
      and generate = \<open>ex_reply ''[{"misspelled_word":"has","suggestion":"have"}]''\<close>
      and req = "\<lparr>req_text = ''I has a apple'', req_model = Some ''m'',
                   max_chunk_chars = 1600\<rparr>"]
  by (simp add: or_default_def)

text \<open>
  C3 says that malformed elements of the extracted array are recovered locally and never
  raise. The code does not achieve it: the loop calls \<open>item.get\<close> and \<open>re.escape\<close>
  unguarded, so that an element that is not an object raises \<open>AttributeError\<close>, an
  object without \<open>misspelled_word\<close> raises \<open>TypeError\<close>, and the request fails.
\<close>

theorem spellcheck_malformed_item_raises:
  \<open>extract_json_list ex_loads ''Sure: [1]'' = [JNum 1] \<and>
   fst (spellcheck sha ex_loads (ex_reply ''Sure: [1]'') now_get now_set Map.empty
          \<lparr>req_text = ''I has a apple'', req_model = Some ''m'', max_chunk_chars = 1600\<rparr>) =
   Inl AttributeError \<and>
   fst (spellcheck sha ex_loads (ex_reply ''[{"suggestion": "x"}]'') now_get now_set Map.empty
          \<lparr>req_text = ''I has a apple'', req_model = Some ''m'', max_chunk_chars = 1600\<rparr>) =
   Inl TypeError\<close>
proof -
  have "extract_json_list ex_loads ''Sure: [1]'' = [JNum 1]" by code_simp
  then show ?thesis
    using malformed_chunks
      spellcheck_raise [where CACHE = Map.empty and sha = sha and loads = ex_loads
        and generate = "ex_reply ''Sure: [1]''"
        and req = "\<lparr>req_text = ''I has a apple'', req_model = Some ''m'',
                     max_chunk_chars = 1600\<rparr>"]
      spellcheck_raise [where CACHE = Map.empty and sha = sha and loads = ex_loads
        and generate = \<open>ex_reply ''[{"suggestion": "x"}]''\<close>
        and req = "\<lparr>req_text = ''I has a apple'', req_model = Some ''m'',
                     max_chunk_chars = 1600\<rparr>"]
    by (simp add: or_default_def)
qed

subsection \<open>Claims about the cache\<close>

text \<open>
  C10: for every model and text, \<open>correct\<close> on the text and \<open>spellcheck\<close> on the text
  prefixed with \<open>AUTO|\<close> use the same cache key, the hash of the model, \<open>||\<close>, \<open>AUTO|\<close>
  and the text. So a rewritten text cached by \<open>correct\<close> is returned by \<open>spellcheck\<close> as
  its list of corrections within the time to live, and a list of corrections cached by
  \<open>spellcheck\<close> is returned by \<open>correct\<close> as its text.
\<close>

theorem cache_namespace_overlap:
  "hash_key sha m (''AUTO|'' @ t) = sha (m @ ''||'' @ ''AUTO|'' @ t) \<and>
   (CACHE (hash_key sha (or_default mo) (''AUTO|'' @ t)) = None \<and>
    rewrite (or_default mo) t = Inr raw \<and> now_c - now_b \<le> CACHE_TTL \<longrightarrow>
      (case correct sha rewrite now_a now_b CACHE \<lparr>creq_text = t, creq_model = mo\<rparr> of
         (r, CACHE') \<Rightarrow>
           r = Inr (TextResponse (Corrected (strip raw))) \<and>
           spellcheck sha loads generate now_c now_d CACHE'
             \<lparr>req_text = ''AUTO|'' @ t, req_model = mo, max_chunk_chars = k\<rparr> =
           (Inr (CorrectionsResponse (Corrected (strip raw))), CACHE'))) \<and>
   (CACHE (hash_key sha (or_default mo) (''AUTO|'' @ t)) = None \<and>
    chunk_loop loads (generate (or_default mo)) 0 [] (chunk_text (''AUTO|'' @ t) k) = Inr cg \<and>
    now_c - now_b \<le> CACHE_TTL \<longrightarrow>
      (case spellcheck sha loads generate now_a now_b CACHE
              \<lparr>req_text = ''AUTO|'' @ t, req_model = mo, max_chunk_chars = k\<rparr> of
         (r, CACHE') \<Rightarrow>
           r = Inr (CorrectionsResponse (Corrections (map snd cg))) \<and>
           correct sha rewrite now_c now_d CACHE' \<lparr>creq_text = t, creq_model = mo\<rparr> =
           (Inr (TextResponse (Corrections (map snd cg))), CACHE')))"
proof (intro conjI impI)
  show "hash_key sha m (''AUTO|'' @ t) = sha (m @ ''||'' @ ''AUTO|'' @ t)"
    by (simp add: hash_key_def)
next
  assume a: "CACHE (hash_key sha (or_default mo) (''AUTO|'' @ t)) = None \<and>
    rewrite (or_default mo) t = Inr raw \<and> now_c - now_b \<le> CACHE_TTL"
  let ?C = "cache_set sha now_b CACHE (or_default mo) (''AUTO|'' @ t) (Corrected (strip raw))"
  have c: "correct sha rewrite now_a now_b CACHE \<lparr>creq_text = t, creq_model = mo\<rparr> =
             (Inr (TextResponse (Corrected (strip raw))), ?C)"
    using a correct_miss [of CACHE sha "\<lparr>creq_text = t, creq_model = mo\<rparr>" rewrite raw]
    by simp
  have "cache_get sha now_c ?C (or_default mo) (''AUTO|'' @ t) = (Some (Corrected (strip raw)), ?C)"
    by (rule cache_get_fresh [where ts = now_b]) (use a in \<open>simp_all add: cache_set_def\<close>)
  then have "spellcheck sha loads generate now_c now_d ?C
          \<lparr>req_text = ''AUTO|'' @ t, req_model = mo, max_chunk_chars = k\<rparr> =
        (Inr (CorrectionsResponse (Corrected (strip raw))), ?C)"
    by (simp add: spellcheck_def Let_def)
  with c show "case correct sha rewrite now_a now_b CACHE \<lparr>creq_text = t, creq_model = mo\<rparr> of
         (r, CACHE') \<Rightarrow>
           r = Inr (TextResponse (Corrected (strip raw))) \<and>
           spellcheck sha loads generate now_c now_d CACHE'
             \<lparr>req_text = ''AUTO|'' @ t, req_model = mo, max_chunk_chars = k\<rparr> =
           (Inr (CorrectionsResponse (Corrected (strip raw))), CACHE')"
    by simp
next
  assume a: "CACHE (hash_key sha (or_default mo) (''AUTO|'' @ t)) = None \<and>
    chunk_loop loads (generate (or_default mo)) 0 [] (chunk_text (''AUTO|'' @ t) k) = Inr cg \<and>
    now_c - now_b \<le> CACHE_TTL"
  let ?C = "cache_set sha now_b CACHE (or_default mo) (''AUTO|'' @ t) (Corrections (map snd cg))"
  have c: "spellcheck sha loads generate now_a now_b CACHE
             \<lparr>req_text = ''AUTO|'' @ t, req_model = mo, max_chunk_chars = k\<rparr> =
           (Inr (CorrectionsResponse (Corrections (map snd cg))), ?C)"
    using a spellcheck_miss [of CACHE sha
        "\<lparr>req_text = ''AUTO|'' @ t, req_model = mo, max_chunk_chars = k\<rparr>" loads generate cg]
    by simp
  have "cache_get sha now_c ?C (or_default mo) (''AUTO|'' @ t) =
          (Some (Corrections (map snd cg)), ?C)"
    by (rule cache_get_fresh [where ts = now_b]) (use a in \<open>simp_all add: cache_set_def\<close>)
  then have "correct sha rewrite now_c now_d ?C \<lparr>creq_text = t, creq_model = mo\<rparr> =
        (Inr (TextResponse (Corrections (map snd cg))), ?C)"
    by (simp add: correct_def Let_def)
  with c show "case spellcheck sha loads generate now_a now_b CACHE
              \<lparr>req_text = ''AUTO|'' @ t, req_model = mo, max_chunk_chars = k\<rparr> of
         (r, CACHE') \<Rightarrow>
           r = Inr (CorrectionsResponse (Corrections (map snd cg))) \<and>
           correct sha rewrite now_c now_d CACHE' \<lparr>creq_text = t, creq_model = mo\<rparr> =
           (Inr (TextResponse (Corrections (map snd cg))), CACHE')"
    by simp
qed

theorem cache_namespace_overlap_witness:
  "Map.empty (hash_key (\<lambda>s. s) (or_default (Some ''m'')) (''AUTO|'' @ ''helo'')) = None \<and>
   (30 :: rat) - 10 \<le> CACHE_TTL \<and>
   (case correct (\<lambda>s. s) (\<lambda>m t. Inr '' hello '') 5 10 Map.empty
           \<lparr>creq_text = ''helo'', creq_model = Some ''m''\<rparr> of
      (r, CACHE') \<Rightarrow>
        r = Inr (TextResponse (Corrected ''hello'')) \<and>
        spellcheck (\<lambda>s. s) ex_loads (ex_reply ''[]'') 30 40 CACHE'
          \<lparr>req_text = ''AUTO|'' @ ''helo'', req_model = Some ''m'', max_chunk_chars = 1600\<rparr> =
        (Inr (CorrectionsResponse (Corrected ''hello'')), CACHE')) \<and>
   (case spellcheck (\<lambda>s. s) ex_loads (ex_reply ''[]'') 5 10 Map.empty
           \<lparr>req_text = ''AUTO|'' @ ''helo'', req_model = Some ''m'', max_chunk_chars = 1600\<rparr> of
      (r, CACHE') \<Rightarrow>
        r = Inr (CorrectionsResponse (Corrections [])) \<and>
        correct (\<lambda>s. s) (\<lambda>m t. Inr '' hello '') 30 40 CACHE'
          \<lparr>creq_text = ''helo'', creq_model = Some ''m''\<rparr> =
        (Inr (TextResponse (Corrections [])), CACHE'))"
  using cache_namespace_overlap [where sha = "\<lambda>s. s" and mo = "Some ''m''" and t = "''helo''"
      and CACHE = Map.empty and rewrite = "\<lambda>m t. Inr '' hello ''" and raw = "'' hello ''"
      and now_a = 5 and now_b = 10 and now_c = 30 and now_d = 40 and loads = ex_loads
      and generate = "ex_reply ''[]''" and k = 1600 and cg = "[]"]
    auto_chunks strip_hello
  by (simp add: or_default_def CACHE_TTL_def)

end
